theory Spec2Isabelle
  imports Main "HOL-Library.Sublist"
begin

section \<open>Call analyzer: heuristic analysis, response parsing and dispatch\<close>

text \<open>
  A shallow embedding of \<^verbatim>\<open>app.py\<close>: the offline analyzer \<^verbatim>\<open>local_fallback\<close>, the
  response parsing at the end of \<^verbatim>\<open>call_groq_for_json\<close>, the client factory
  \<^verbatim>\<open>make_groq_client\<close> and the dispatch made by the Analyze button. The Python library
  functions the program calls (\<^verbatim>\<open>str.strip\<close>, \<^verbatim>\<open>str.lower\<close>, \<^verbatim>\<open>str.count\<close>, \<^verbatim>\<open>str.split\<close>,
  \<^verbatim>\<open>re.split\<close>, \<^verbatim>\<open>re.search\<close>, \<^verbatim>\<open>json.loads\<close>, \<^verbatim>\<open>dict.get\<close>) are modelled as executable
  functions with the behaviour CPython gives them; an exception is a value of type
  \<open>py_exception\<close> on the left of a sum.
\<close>

subsection \<open>Python strings\<close>

text \<open>
  A Python \<^verbatim>\<open>str\<close> is a sequence of Unicode code points, here a list of naturals.
  \<open>py\<close> embeds a literal.
\<close>

type_synonym pystr = "nat list"

definition py :: "string \<Rightarrow> pystr" where
  "py s = map of_char s"

text \<open>
  \<^verbatim>\<open>str.isspace\<close> on one code point, which is also what \<^verbatim>\<open>\s\<close> matches in a \<^verbatim>\<open>str\<close>
  pattern and what \<^verbatim>\<open>strip()\<close> and \<^verbatim>\<open>split()\<close> remove: U+0009..U+000D, U+001C..U+0020,
  U+0085, U+00A0, U+1680, U+2000..U+200A, U+2028, U+2029, U+202F, U+205F, U+3000.
\<close>

definition isspace :: "nat \<Rightarrow> bool" where
  "isspace c \<longleftrightarrow>
     (9 \<le> c \<and> c \<le> 13) \<or> (28 \<le> c \<and> c \<le> 32) \<or> c = 133 \<or> c = 160 \<or> c = 5760 \<or>
     (8192 \<le> c \<and> c \<le> 8202) \<or> c = 8232 \<or> c = 8233 \<or> c = 8239 \<or> c = 8287 \<or> c = 12288"

definition lstrip :: "pystr \<Rightarrow> pystr" where
  "lstrip s = dropWhile isspace s"

definition rstrip :: "pystr \<Rightarrow> pystr" where
  "rstrip s = rev (dropWhile isspace (rev s))"

definition strip :: "pystr \<Rightarrow> pystr" where
  "strip s = rstrip (lstrip s)"

text \<open>
  \<^verbatim>\<open>str.lower\<close>, one code point at a time. The mapping is Python's for every code point
  below U+0100 and for the two higher ones whose lower case contains an ASCII letter
  (U+0130 gives \<^verbatim>\<open>i\<close> followed by U+0307, U+212A gives \<^verbatim>\<open>k\<close>). The other cased letters
  from U+0100 on, which Python maps to letters outside ASCII, are left in place:
  that changes no occurrence of an ASCII term in the result.
\<close>

definition lower_cp :: "nat \<Rightarrow> pystr" where
  "lower_cp c =
     (if 65 \<le> c \<and> c \<le> 90 then [c + 32]
      else if (192 \<le> c \<and> c \<le> 214) \<or> (216 \<le> c \<and> c \<le> 222) then [c + 32]
      else if c = 304 then [105, 775]
      else if c = 8490 then [107]
      else [c])"

definition lower :: "pystr \<Rightarrow> pystr" where
  "lower s = concat (map lower_cp s)"

text \<open>
  \<^verbatim>\<open>t.count(w)\<close>: the number of non-overlapping occurrences of \<open>w\<close> in \<open>t\<close>, found from
  left to right. \<open>count_from w k t\<close> scans \<open>t\<close> with \<open>k\<close> characters of the last match
  still to be skipped. For the empty \<open>w\<close> Python answers \<open>len(t) + 1\<close>.
\<close>

fun count_from :: "pystr \<Rightarrow> nat \<Rightarrow> pystr \<Rightarrow> nat" where
  "count_from w k [] = 0"
| "count_from w (Suc k) (c # cs) = count_from w k cs"
| "count_from w 0 (c # cs) =
     (if prefix w (c # cs) then 1 + count_from w (length w - 1) cs else count_from w 0 cs)"

definition str_count :: "pystr \<Rightarrow> pystr \<Rightarrow> nat" where
  "str_count t w = (if w = [] then length t + 1 else count_from w 0 t)"

text \<open>
  \<^verbatim>\<open>re.split(r'[.?!]\s+', s)\<close>: a match starts at a terminator that is followed by
  whitespace and takes all the whitespace after it; the text between matches is
  returned, the pieces before the first and after the last match included.
\<close>

definition is_terminator :: "nat \<Rightarrow> bool" where
  "is_terminator c \<longleftrightarrow> c = 46 \<or> c = 63 \<or> c = 33"

definition boundary_at :: "pystr \<Rightarrow> bool" where
  "boundary_at s = (case s of c # d # _ \<Rightarrow> is_terminator c \<and> isspace d | _ \<Rightarrow> False)"

function re_split_from :: "pystr \<Rightarrow> pystr \<Rightarrow> pystr list" where
  "re_split_from cur [] = [cur]"
| "re_split_from cur (c # cs) =
     (if boundary_at (c # cs)
      then cur # re_split_from [] (dropWhile isspace cs)
      else re_split_from (cur @ [c]) cs)"
  by pat_completeness auto
termination
  by (relation "measure (\<lambda>(cur, s). length s)") (auto simp: length_dropWhile_le less_Suc_eq_le)

definition re_split_sentences :: "pystr \<Rightarrow> pystr list" where
  "re_split_sentences s = re_split_from [] s"

text \<open>\<^verbatim>\<open>s.split()\<close>: the maximal runs of characters that are not whitespace.\<close>

function split_ws :: "pystr \<Rightarrow> pystr list" where
  "split_ws s =
     (case dropWhile isspace s of
        [] \<Rightarrow> []
      | c # cs \<Rightarrow> (c # takeWhile (\<lambda>x. \<not> isspace x) cs) # split_ws (dropWhile (\<lambda>x. \<not> isspace x) cs))"
  by pat_completeness auto
termination
proof (relation "measure length", simp, goal_cases)
  case (1 s c cs)
  have "length (dropWhile (\<lambda>x. \<not> isspace x) cs) \<le> length cs"
    by (rule length_dropWhile_le)
  moreover have "length (c # cs) \<le> length s"
    using 1 length_dropWhile_le [of isspace s] by simp
  ultimately show ?case by simp
qed

declare split_ws.simps [simp del]

fun join :: "pystr \<Rightarrow> pystr list \<Rightarrow> pystr" where
  "join sep [] = []"
| "join sep [x] = x"
| "join sep (x # y # ys) = x @ sep @ join sep (y # ys)"

subsection \<open>The offline analyzer\<close>

text \<open>
  \<^verbatim>\<open>local_fallback(transcript)\<close>. The conditional of the source,
  \<^verbatim>\<open>sentences[0].strip() if sentences else " ".join(s.split()[:12]) + "..."\<close>, tests
  whether the list \<open>sentences\<close> is empty.
\<close>

definition neg_terms :: "pystr list" where
  "neg_terms = map py [''not'', ''failed'', ''frustrat'', ''angry'', ''charged'', ''refund'',
                       ''problem'', ''issue'', ''complain'', ''delay'']"

definition pos_terms :: "pystr list" where
  "pos_terms = map py [''thank'', ''thanks'', ''great'', ''happy'', ''good'', ''satisfied'']"

definition local_fallback :: "pystr \<Rightarrow> pystr \<times> pystr" where
  "local_fallback transcript =
     (let s = strip transcript;
          sentences = re_split_sentences s;
          summary = (case sentences of
                       x # _ \<Rightarrow> strip x
                     | [] \<Rightarrow> join (py '' '') (take 12 (split_ws s)) @ py ''...'');
          t = lower s;
          neg = sum_list (map (str_count t) neg_terms);
          pos = sum_list (map (str_count t) pos_terms);
          sentiment = (if neg > pos then py ''Negative''
                       else if pos > neg then py ''Positive''
                       else py ''Neutral'')
      in (summary, sentiment))"

text \<open>
  The sentiment as the specification words it: over the lower-cased transcript, every
  position at which a term occurs counts, overlapping occurrences included.
\<close>

definition occurrences :: "pystr \<Rightarrow> pystr \<Rightarrow> nat" where
  "occurrences t w = length (filter (\<lambda>i. prefix w (drop i t)) [0..<length t])"

definition spec_sentiment :: "pystr \<Rightarrow> pystr" where
  "spec_sentiment transcript =
     (let t = lower transcript;
          neg = sum_list (map (occurrences t) neg_terms);
          pos = sum_list (map (occurrences t) pos_terms)
      in if neg > pos then py ''Negative''
         else if pos > neg then py ''Positive''
         else py ''Neutral'')"

text \<open>
  The summary as the specification words it: the first sentence that is not empty,
  trimmed; without a sentence boundary, the first twelve tokens and an ellipsis. The
  same excerpt stands where every sentence is empty, the specification asking for a
  truncated excerpt when no better summary can be derived.
\<close>

definition spec_summary :: "pystr \<Rightarrow> pystr" where
  "spec_summary transcript =
     (let sentences = re_split_sentences transcript;
          excerpt = join (py '' '') (take 12 (split_ws transcript)) @ py ''...''
      in if length sentences \<le> 1 then excerpt
         else (case filter (\<lambda>x. x \<noteq> []) (map strip sentences) of
                 x # _ \<Rightarrow> x
               | [] \<Rightarrow> excerpt))"

text \<open>
  A term is plain when it is not empty, holds no whitespace and has no border (no
  proper prefix that is also a suffix): two occurrences of such a term cannot overlap.
\<close>

definition unbordered :: "pystr \<Rightarrow> bool" where
  "unbordered w = list_all (\<lambda>k. take k w \<noteq> drop (length w - k) w) [1..<length w]"

definition plain_term :: "pystr \<Rightarrow> bool" where
  "plain_term w \<longleftrightarrow> w \<noteq> [] \<and> list_all (\<lambda>c. \<not> isspace c) w \<and> unbordered w"

subsection \<open>Exceptions\<close>

text \<open>
  The exceptions the program can meet: \<^verbatim>\<open>json.loads\<close> raises \<open>JSONDecodeError\<close>;
  \<^verbatim>\<open>.get\<close> on a value that is no dict and \<^verbatim>\<open>.strip()\<close> on a value that is no \<^verbatim>\<open>str\<close> raise
  \<open>AttributeError\<close>; the Groq constructor and the completion request can raise anything,
  here \<open>RemoteCallFailed\<close>. All of them are subclasses of \<^verbatim>\<open>Exception\<close>, which is what the
  handlers of the program catch.
\<close>

datatype py_exception = JSONDecodeError | AttributeError | RemoteCallFailed

subsection \<open>\<^verbatim>\<open>json.loads\<close>\<close>

text \<open>
  The value \<^verbatim>\<open>json.loads\<close> returns. A number keeps its text (also \<^verbatim>\<open>NaN\<close>, \<^verbatim>\<open>Infinity\<close> and
  \<^verbatim>\<open>-Infinity\<close>, which Python accepts): the program only ever asks whether a value is a
  string. An object keeps its members in the order of the text; a lookup takes the
  last member with the key, as the dict does that Python builds.
\<close>

datatype json =
    JNull
  | JBool bool
  | JNumber pystr
  | JString pystr
  | JArray "json list"
  | JObject "(pystr \<times> json) list"

text \<open>
  The decoder accepts one value with whitespace (space, tab, line feed, carriage return)
  around it and between tokens. It is modelled as a tokenizer followed by a stack
  machine over the tokens; every string the decoder rejects fails in one of the two.
  The interpreter limits (recursion depth, digits of an integer) are not modelled.
\<close>

datatype token =
    T_LBrace | T_RBrace | T_LBracket | T_RBracket | T_Colon | T_Comma
  | T_String pystr
  | T_Atom json

definition is_digit :: "nat \<Rightarrow> bool" where
  "is_digit c \<longleftrightarrow> 48 \<le> c \<and> c \<le> 57"

definition hex_value :: "nat \<Rightarrow> nat option" where
  "hex_value c =
     (if 48 \<le> c \<and> c \<le> 57 then Some (c - 48)
      else if 97 \<le> c \<and> c \<le> 102 then Some (c - 87)
      else if 65 \<le> c \<and> c \<le> 70 then Some (c - 55)
      else None)"

definition hex4 :: "pystr \<Rightarrow> nat option" where
  "hex4 xs =
     (case map hex_value xs of
        [Some a, Some b, Some c, Some d] \<Rightarrow> Some (((a * 16 + b) * 16 + c) * 16 + d)
      | _ \<Rightarrow> None)"

definition decode_u :: "pystr \<Rightarrow> (nat \<times> pystr) option" where
  "decode_u es =
     (case hex4 (take 4 es) of
        None \<Rightarrow> None
      | Some hi \<Rightarrow>
          (let rest = drop 4 es in
           if 55296 \<le> hi \<and> hi \<le> 56319 \<and> take 2 rest = [92, 117] then
             (case hex4 (take 4 (drop 2 rest)) of
                Some lo \<Rightarrow>
                  if 56320 \<le> lo \<and> lo \<le> 57343
                  then Some (65536 + (hi - 55296) * 1024 + (lo - 56320), drop 6 rest)
                  else Some (hi, rest)
              | None \<Rightarrow> Some (hi, rest))
           else Some (hi, rest)))"

definition simple_escape :: "nat \<Rightarrow> nat option" where
  "simple_escape e =
     (if e = 34 \<or> e = 92 \<or> e = 47 then Some e
      else if e = 98 then Some 8
      else if e = 102 then Some 12
      else if e = 110 then Some 10
      else if e = 114 then Some 13
      else if e = 116 then Some 9
      else None)"

text \<open>
  A string body, read after the opening quote in strict mode: a control character
  below U+0020 is refused, \<^verbatim>\<open>\uXXXX\<close> takes four hexadecimal digits, and a high
  surrogate followed by an escaped low surrogate gives one code point.
\<close>

lemma decode_u_shorter: "decode_u es = Some (cp, rest) \<Longrightarrow> length rest \<le> length es"
  by (auto simp: decode_u_def Let_def split: option.splits if_splits)

function scanstring :: "pystr \<Rightarrow> pystr \<Rightarrow> (pystr \<times> pystr) option" where
  "scanstring acc [] = None"
| "scanstring acc (c # cs) =
     (if c = 34 then Some (acc, cs)
      else if c = 92 then
        (case cs of
           [] \<Rightarrow> None
         | e # es \<Rightarrow>
             if e = 117 then
               (case decode_u es of
                  None \<Rightarrow> None
                | Some (cp, rest) \<Rightarrow> scanstring (acc @ [cp]) rest)
             else
               (case simple_escape e of
                  None \<Rightarrow> None
                | Some x \<Rightarrow> scanstring (acc @ [x]) es))
      else if c < 32 then None
      else scanstring (acc @ [c]) cs)"
  by pat_completeness auto
termination
  by (relation "measure (\<lambda>(acc, s). length s)") (auto dest: decode_u_shorter)

lemma scanstring_shorter: "scanstring acc s = Some (v, rest) \<Longrightarrow> length rest < length s"
proof (induction acc s rule: scanstring.induct)
  case (1 acc)
  then show ?case by simp
next
  case (2 acc c cs)
  show ?case
  proof (cases "c = 34")
    case True
    with "2.prems" show ?thesis by simp
  next
    case quote: False
    show ?thesis
    proof (cases "c = 92")
      case True
      show ?thesis
      proof (cases cs)
        case Nil
        with "2.prems" quote True show ?thesis by simp
      next
        case (Cons e es)
        show ?thesis
        proof (cases "e = 117")
          case u: True
          with "2.prems" quote True Cons obtain cp r where
            d: "decode_u es = Some (cp, r)" and s: "scanstring (acc @ [cp]) r = Some (v, rest)"
            by (auto split: option.splits)
          from "2.IH"(1) [OF quote True Cons u d refl s] have "length rest < length r" .
          with decode_u_shorter [OF d] Cons show ?thesis by simp
        next
          case nu: False
          with "2.prems" quote True Cons obtain x where
            d: "simple_escape e = Some x" and s: "scanstring (acc @ [x]) es = Some (v, rest)"
            by (auto split: option.splits)
          from "2.IH"(2) [OF quote True Cons nu d s] have "length rest < length es" .
          with Cons show ?thesis by simp
        qed
      qed
    next
      case False
      with "2.prems" quote have lo: "\<not> c < 32" and s: "scanstring (acc @ [c]) cs = Some (v, rest)"
        by (auto split: if_splits)
      from "2.IH"(3) [OF quote False lo s] show ?thesis by simp
    qed
  qed
qed

text \<open>
  The number pattern \<^verbatim>\<open>-?(0|[1-9][0-9]*)(\.[0-9]+)?([eE][-+]?[0-9]+)?\<close>: \<open>match_number s\<close>
  is the length of the match at the start of \<open>s\<close>, or \<open>0\<close> without a match.
\<close>

definition match_number :: "pystr \<Rightarrow> nat" where
  "match_number s =
     (let sign = (if take 1 s = [45] then 1 else 0);
          body = drop sign s;
          ilen = (case body of
                    [] \<Rightarrow> 0
                  | d # ds \<Rightarrow> if d = 48 then 1
                             else if is_digit d then 1 + length (takeWhile is_digit ds)
                             else 0);
          after_int = drop ilen body;
          flen = (case after_int of
                    p # d # ds \<Rightarrow> if p = 46 \<and> is_digit d
                                  then 2 + length (takeWhile is_digit ds) else 0
                  | _ \<Rightarrow> 0);
          after_frac = drop flen after_int;
          elen = (case after_frac of
                    [] \<Rightarrow> 0
                  | e # es \<Rightarrow>
                      if e = 101 \<or> e = 69 then
                        (let slen = (if take 1 es = [43] \<or> take 1 es = [45] then 1 else 0);
                             dlen = length (takeWhile is_digit (drop slen es))
                         in if dlen = 0 then 0 else 1 + slen + dlen)
                      else 0)
      in if ilen = 0 then 0 else sign + ilen + flen + elen)"

definition scan_atom :: "pystr \<Rightarrow> (json \<times> nat) option" where
  "scan_atom s =
     (if prefix (py ''null'') s then Some (JNull, 4)
      else if prefix (py ''true'') s then Some (JBool True, 4)
      else if prefix (py ''false'') s then Some (JBool False, 5)
      else if prefix (py ''NaN'') s then Some (JNumber (py ''NaN''), 3)
      else if prefix (py ''Infinity'') s then Some (JNumber (py ''Infinity''), 8)
      else if prefix (py ''-Infinity'') s then Some (JNumber (py ''-Infinity''), 9)
      else (let n = match_number s in if n = 0 then None else Some (JNumber (take n s), n)))"

definition json_ws :: "nat \<Rightarrow> bool" where
  "json_ws c \<longleftrightarrow> c = 32 \<or> c = 9 \<or> c = 10 \<or> c = 13"

definition punctuation :: "nat \<Rightarrow> token option" where
  "punctuation c =
     (if c = 123 then Some T_LBrace
      else if c = 125 then Some T_RBrace
      else if c = 91 then Some T_LBracket
      else if c = 93 then Some T_RBracket
      else if c = 58 then Some T_Colon
      else if c = 44 then Some T_Comma
      else None)"

lemma scan_atom_pos: "scan_atom s = Some (v, n) \<Longrightarrow> 0 < n"
  by (auto simp: scan_atom_def Let_def split: if_splits)

function tokenize :: "pystr \<Rightarrow> token list option" where
  "tokenize [] = Some []"
| "tokenize (c # cs) =
     (if json_ws c then tokenize cs
      else if c = 34 then
        (case scanstring [] cs of
           None \<Rightarrow> None
         | Some (v, rest) \<Rightarrow> map_option (Cons (T_String v)) (tokenize rest))
      else
        (case punctuation c of
           Some t \<Rightarrow> map_option (Cons t) (tokenize cs)
         | None \<Rightarrow>
             (case scan_atom (c # cs) of
                None \<Rightarrow> None
              | Some (v, n) \<Rightarrow> map_option (Cons (T_Atom v)) (tokenize (drop n (c # cs))))))"
  by pat_completeness auto
termination
  by (relation "measure length") (auto dest: scanstring_shorter scan_atom_pos)

text \<open>
  The stack machine. A frame is an array or an object under construction; the mode
  says what may come next.
\<close>

datatype frame =
    F_Array "json list"
  | F_Object "(pystr \<times> json) list"
  | F_Field "(pystr \<times> json) list" pystr

datatype mode =
    M_Value
  | M_First_Element
  | M_First_Key
  | M_Key
  | M_Colon pystr
  | M_After json

fun begin_value :: "frame list \<Rightarrow> token \<Rightarrow> (mode \<times> frame list) option" where
  "begin_value st (T_Atom v) = Some (M_After v, st)"
| "begin_value st (T_String s) = Some (M_After (JString s), st)"
| "begin_value st T_LBrace = Some (M_First_Key, F_Object [] # st)"
| "begin_value st T_LBracket = Some (M_First_Element, F_Array [] # st)"
| "begin_value st _ = None"

definition after_value :: "json \<Rightarrow> frame list \<Rightarrow> token \<Rightarrow> (mode \<times> frame list) option" where
  "after_value v st t =
     (case st of
        F_Array es # st' \<Rightarrow>
          (case t of
             T_Comma \<Rightarrow> Some (M_Value, F_Array (es @ [v]) # st')
           | T_RBracket \<Rightarrow> Some (M_After (JArray (es @ [v])), st')
           | _ \<Rightarrow> None)
      | F_Field ps k # st' \<Rightarrow>
          (case t of
             T_Comma \<Rightarrow> Some (M_Key, F_Object (ps @ [(k, v)]) # st')
           | T_RBrace \<Rightarrow> Some (M_After (JObject (ps @ [(k, v)])), st')
           | _ \<Rightarrow> None)
      | _ \<Rightarrow> None)"

definition step :: "mode \<Rightarrow> frame list \<Rightarrow> token \<Rightarrow> (mode \<times> frame list) option" where
  "step m st t =
     (case m of
        M_Value \<Rightarrow> begin_value st t
      | M_First_Element \<Rightarrow>
          (case (t, st) of
             (T_RBracket, F_Array es # st') \<Rightarrow> Some (M_After (JArray es), st')
           | _ \<Rightarrow> begin_value st t)
      | M_First_Key \<Rightarrow>
          (case (t, st) of
             (T_RBrace, F_Object ps # st') \<Rightarrow> Some (M_After (JObject ps), st')
           | (T_String k, _) \<Rightarrow> Some (M_Colon k, st)
           | _ \<Rightarrow> None)
      | M_Key \<Rightarrow> (case t of T_String k \<Rightarrow> Some (M_Colon k, st) | _ \<Rightarrow> None)
      | M_Colon k \<Rightarrow>
          (case (t, st) of
             (T_Colon, F_Object ps # st') \<Rightarrow> Some (M_Value, F_Field ps k # st')
           | _ \<Rightarrow> None)
      | M_After v \<Rightarrow> after_value v st t)"

fun run :: "mode \<Rightarrow> frame list \<Rightarrow> token list \<Rightarrow> json option" where
  "run (M_After v) [] [] = Some v"
| "run m st [] = None"
| "run m st (t # ts) = (case step m st t of None \<Rightarrow> None | Some (m', st') \<Rightarrow> run m' st' ts)"

definition json_loads :: "pystr \<Rightarrow> py_exception + json" where
  "json_loads s =
     (case tokenize s of
        None \<Rightarrow> Inl JSONDecodeError
      | Some ts \<Rightarrow> (case run M_Value [] ts of None \<Rightarrow> Inl JSONDecodeError | Some v \<Rightarrow> Inr v))"

subsection \<open>The response parser\<close>

text \<open>
  \<^verbatim>\<open>parsed.get(key, "").strip()\<close>: \<^verbatim>\<open>get\<close> needs a dict, \<^verbatim>\<open>strip\<close> needs a string.
\<close>

definition dict_get :: "json \<Rightarrow> pystr \<Rightarrow> json \<Rightarrow> py_exception + json" where
  "dict_get parsed key dflt =
     (case parsed of
        JObject kvs \<Rightarrow> Inr (case map_of (rev kvs) key of Some v \<Rightarrow> v | None \<Rightarrow> dflt)
      | _ \<Rightarrow> Inl AttributeError)"

definition str_strip :: "json \<Rightarrow> py_exception + pystr" where
  "str_strip v = (case v of JString s \<Rightarrow> Inr (strip s) | _ \<Rightarrow> Inl AttributeError)"

definition get_stripped :: "json \<Rightarrow> pystr \<Rightarrow> py_exception + pystr" where
  "get_stripped parsed key =
     (case dict_get parsed key (JString []) of Inl e \<Rightarrow> Inl e | Inr v \<Rightarrow> str_strip v)"

definition extract_fields :: "json \<Rightarrow> py_exception + (pystr \<times> pystr)" where
  "extract_fields parsed =
     (case get_stripped parsed (py ''summary'') of
        Inl e \<Rightarrow> Inl e
      | Inr a \<Rightarrow>
          (case get_stripped parsed (py ''sentiment'') of
             Inl e \<Rightarrow> Inl e
           | Inr b \<Rightarrow> Inr (a, b)))"

definition try_parse :: "pystr \<Rightarrow> py_exception + (pystr \<times> pystr)" where
  "try_parse text = (case json_loads text of Inl e \<Rightarrow> Inl e | Inr parsed \<Rightarrow> extract_fields parsed)"

text \<open>
  \<^verbatim>\<open>re.search(r"\{.*\}", generated, re.DOTALL)\<close>: the match starts at the first opening
  brace and, the star being greedy and the dot matching newlines, ends at the last
  closing brace after it.
\<close>

definition re_search_braces :: "pystr \<Rightarrow> pystr option" where
  "re_search_braces s =
     (case dropWhile (\<lambda>c. c \<noteq> 123) s of
        [] \<Rightarrow> None
      | b # rest \<Rightarrow>
          (case rev (dropWhile (\<lambda>c. c \<noteq> 125) (rev rest)) of
             [] \<Rightarrow> None
           | body \<Rightarrow> Some (b # body)))"

text \<open>
  The end of \<^verbatim>\<open>call_groq_for_json\<close>: the first \<^verbatim>\<open>try\<close> parses the whole text, its handler
  parses the block in braces, and what neither returns falls through to the last line.
\<close>

definition parse_response :: "pystr \<Rightarrow> pystr \<times> pystr" where
  "parse_response generated =
     (case try_parse generated of
        Inr r \<Rightarrow> r
      | Inl _ \<Rightarrow>
          (case re_search_braces generated of
             Some m \<Rightarrow>
               (case try_parse m of
                  Inr r \<Rightarrow> r
                | Inl _ \<Rightarrow> (strip generated, py ''Unknown''))
           | None \<Rightarrow> (strip generated, py ''Unknown'')))"

subsection \<open>The dispatcher\<close>

text \<open>
  The outcome of lines 60 and 61 of \<^verbatim>\<open>call_groq_for_json\<close>: the request or the access to
  its result raises, or \<open>generated\<close> is a text (the content of the first choice, or
  \<^verbatim>\<open>str(resp)\<close>). A completion whose content is not a text makes \<^verbatim>\<open>re.search\<close> raise
  outside of any \<^verbatim>\<open>try\<close>, so that the function raises as well: it counts as
  \<open>Call_Raises\<close>.
\<close>

datatype completion = Call_Raises | Generated pystr

datatype client = Groq_Client

text \<open>
  The value of \<open>used\<close>, and what the dispatch does to its surroundings, in order: a
  call of the constructor \<^verbatim>\<open>Groq(api_key=...)\<close>, a call of \<^verbatim>\<open>call_groq_for_json\<close>, and the
  two warnings.
\<close>

datatype source = GROQ | LOCAL_FALLBACK

datatype event = Construct_Client | Create_Completion | Warning_No_Client | Warning_Call_Error

text \<open>
  What the program reads from its surroundings: \<^verbatim>\<open>GROQ_AVAILABLE\<close> (whether \<^verbatim>\<open>groq\<close> could
  be imported), \<^verbatim>\<open>GROQ_API_KEY\<close> (\<^verbatim>\<open>None\<close> when the variable is not set), what the
  constructor does with a key and what the completion request gives for a transcript.
\<close>

record environment =
  groq_available :: bool
  groq_api_key :: "pystr option"
  groq_constructor :: "pystr \<Rightarrow> py_exception + client"
  create_completion :: "pystr \<Rightarrow> completion"

record analysis =
  summary :: pystr
  sentiment :: pystr
  used :: source

text \<open>\<^verbatim>\<open>not GROQ_API_KEY\<close>: the key is \<^verbatim>\<open>None\<close> or the empty string.\<close>

definition key_missing :: "pystr option \<Rightarrow> bool" where
  "key_missing k = (case k of None \<Rightarrow> True | Some v \<Rightarrow> v = [])"

definition make_groq_client :: "environment \<Rightarrow> client option \<times> event list" where
  "make_groq_client env =
     (if \<not> groq_available env \<or> key_missing (groq_api_key env) then (None, [])
      else
        (case groq_api_key env of
           None \<Rightarrow> (None, [])
         | Some k \<Rightarrow>
             (case groq_constructor env k of
                Inr c \<Rightarrow> (Some c, [Construct_Client])
              | Inl _ \<Rightarrow> (None, [Construct_Client]))))"

definition call_groq_for_json ::
    "environment \<Rightarrow> client \<Rightarrow> pystr \<Rightarrow> py_exception + (pystr \<times> pystr \<times> pystr)" where
  "call_groq_for_json env c transcript =
     (case create_completion env transcript of
        Call_Raises \<Rightarrow> Inl RemoteCallFailed
      | Generated generated \<Rightarrow>
          (case parse_response generated of (a, b) \<Rightarrow> Inr (a, b, generated)))"

text \<open>
  The dispatch of the Analyze button (lines 110 to 128), which the handler reaches
  when \<^verbatim>\<open>transcript.strip()\<close> is not empty. Its callees that can raise return a sum; the
  result is the analysis and the trace of events.
\<close>

definition heuristic_analysis :: "pystr \<Rightarrow> analysis" where
  "heuristic_analysis transcript =
     (case local_fallback transcript of
        (su, se) \<Rightarrow> \<lparr>summary = su, sentiment = se, used = LOCAL_FALLBACK\<rparr>)"

definition analyze :: "environment \<Rightarrow> pystr \<Rightarrow> py_exception + (analysis \<times> event list)" where
  "analyze env transcript =
     (let use_offline = \<not> groq_available env \<or> key_missing (groq_api_key env) in
      if use_offline then Inr (heuristic_analysis transcript, [])
      else
        (case make_groq_client env of
           (None, ev) \<Rightarrow> Inr (heuristic_analysis transcript, ev @ [Warning_No_Client])
         | (Some c, ev) \<Rightarrow>
             (case call_groq_for_json env c transcript of
                Inr (su, se, _) \<Rightarrow>
                  Inr (\<lparr>summary = su, sentiment = se, used = GROQ\<rparr>, ev @ [Create_Completion])
              | Inl _ \<Rightarrow>
                  Inr (heuristic_analysis transcript,
                       ev @ [Create_Completion, Warning_Call_Error]))))"

text \<open>
  The fields the parser extracts, if any: from the whole text, else from the block.
\<close>

definition extracted_fields :: "pystr \<Rightarrow> (pystr \<times> pystr) option" where
  "extracted_fields raw =
     (case try_parse raw of
        Inr r \<Rightarrow> Some r
      | Inl _ \<Rightarrow>
          (case re_search_braces raw of
             Some m \<Rightarrow> (case try_parse m of Inr r \<Rightarrow> Some r | Inl _ \<Rightarrow> None)
           | None \<Rightarrow> None))"

text \<open>
  The field of an object read as a string: empty when absent, none when the member is
  not a string.
\<close>

definition string_field :: "(pystr \<times> json) list \<Rightarrow> pystr \<Rightarrow> pystr option" where
  "string_field kvs key =
     (case map_of (rev kvs) key of
        None \<Rightarrow> Some []
      | Some (JString s) \<Rightarrow> Some s
      | Some _ \<Rightarrow> None)"

text \<open>The four values of the sentiment enumeration of the specification.\<close>

definition sentiment_labels :: "pystr list" where
  "sentiment_labels = map py [''Positive'', ''Neutral'', ''Negative'', ''Unknown'']"

text \<open>Two concrete environments: without the capability, and with a fixed answer.\<close>

definition offline_env :: environment where
  "offline_env =
     \<lparr>groq_available = False, groq_api_key = Some (py ''key''),
      groq_constructor = (\<lambda>k. Inr Groq_Client), create_completion = (\<lambda>t. Call_Raises)\<rparr>"

definition online_env :: "completion \<Rightarrow> environment" where
  "online_env answer =
     \<lparr>groq_available = True, groq_api_key = Some (py ''key''),
      groq_constructor = (\<lambda>k. Inr Groq_Client), create_completion = (\<lambda>t. answer)\<rparr>"

section \<open>Properties\<close>

text \<open>
  Evaluation of the model at a concrete input is rewriting with these definitions.
\<close>

lemmas str_eval = py_def strip_def lstrip_def rstrip_def isspace_def
lemmas json_eval = py_def json_loads_def scan_atom_def match_number_def punctuation_def json_ws_def
  step_def after_value_def is_digit_def simple_escape_def decode_u_def hex4_def hex_value_def Let_def
lemmas parse_eval = parse_response_def try_parse_def extract_fields_def get_stripped_def dict_get_def
  str_strip_def re_search_braces_def
lemmas local_eval = local_fallback_def re_split_sentences_def boundary_at_def is_terminator_def
  lower_def lower_cp_def str_count_def neg_terms_def pos_terms_def Let_def
lemmas dispatch_eval = analyze_def make_groq_client_def call_groq_for_json_def key_missing_def
  heuristic_analysis_def offline_env_def online_env_def

subsection \<open>Counting terms\<close>

text \<open>
  The scan of \<^verbatim>\<open>str.count\<close> skips the characters of a match. For a term without a
  border no occurrence starts among the skipped characters, so the scan meets every
  occurrence. Whitespace around the text holds no occurrence of a term without
  whitespace, so trimming does not change the count either.
\<close>

lemma occurrences_Nil: "occurrences [] w = 0"
  by (simp add: occurrences_def)

lemma occurrences_Cons:
  "occurrences (c # cs) w = (if prefix w (c # cs) then 1 else 0) + occurrences cs w"
proof -
  have "[0..<length (c # cs)] = 0 # map Suc [0..<length cs]"
    by (simp add: upt_conv_Cons map_Suc_upt del: upt_Suc)
  then show ?thesis
    by (simp add: occurrences_def filter_map o_def del: upt_Suc)
qed

lemma prefix_take_eq: "prefix xs ys \<Longrightarrow> take (length xs) ys = xs"
  by (auto simp: prefix_def)

lemma unbordered_no_border:
  assumes "unbordered w" "0 < k" "k < length w"
  shows "take k w \<noteq> drop (length w - k) w"
  using assms by (simp add: unbordered_def list_all_iff)

lemma count_from_occurrences:
  assumes "unbordered w" "w \<noteq> []"
  shows "k < length w \<Longrightarrow> prefix (drop (length w - k) w) t
         \<Longrightarrow> count_from w k t = occurrences t w"
proof (induction t arbitrary: k)
  case Nil
  then show ?case by (simp add: occurrences_Nil)
next
  case (Cons c cs)
  show ?case
  proof (cases k)
    case 0
    show ?thesis
    proof (cases "prefix w (c # cs)")
      case True
      with assms obtain w' where w: "w = c # w'" and p: "prefix w' cs"
        by (cases w) auto
      have "count_from w (length w - 1) cs = occurrences cs w"
        by (rule Cons.IH) (use w p in auto)
      with True 0 show ?thesis by (simp add: occurrences_Cons)
    next
      case False
      have "count_from w 0 cs = occurrences cs w"
        by (rule Cons.IH) (use assms in auto)
      with False 0 show ?thesis by (simp add: occurrences_Cons)
    qed
  next
    case (Suc k')
    let ?n = "length w"
    from Cons.prems Suc have klt: "Suc k' < ?n" by simp
    have dr: "drop (?n - Suc k') w = w ! (?n - Suc k') # drop (?n - k') w"
    proof -
      have "?n - Suc k' < ?n" using klt by simp
      then have "drop (?n - Suc k') w = w ! (?n - Suc k') # drop (Suc (?n - Suc k')) w"
        by (simp add: Cons_nth_drop_Suc)
      moreover have "Suc (?n - Suc k') = ?n - k'" using klt by simp
      ultimately show ?thesis by simp
    qed
    from Cons.prems(2) Suc dr have pre: "prefix (drop (?n - k') w) cs"
      by simp
    have np: "\<not> prefix w (c # cs)"
    proof
      assume pw: "prefix w (c # cs)"
      from Cons.prems(2) Suc have ps: "prefix (drop (?n - Suc k') w) (c # cs)" by simp
      have "length (drop (?n - Suc k') w) \<le> length w" by simp
      with pw ps have "prefix (drop (?n - Suc k') w) w"
        by (metis prefix_length_prefix)
      then have "take (length (drop (?n - Suc k') w)) w = drop (?n - Suc k') w"
        by (rule prefix_take_eq)
      moreover have "length (drop (?n - Suc k') w) = Suc k'"
        using klt by simp
      ultimately have "take (Suc k') w = drop (?n - Suc k') w"
        by simp
      with unbordered_no_border [OF assms(1), of "Suc k'"] klt show False by simp
    qed
    have "count_from w k' cs = occurrences cs w"
      by (rule Cons.IH) (use klt pre in auto)
    with np Suc show ?thesis by (simp add: occurrences_Cons)
  qed
qed

lemma lower_append: "lower (a @ b) = lower a @ lower b"
  by (simp add: lower_def)

lemma lower_cp_space: "isspace c \<Longrightarrow> lower_cp c = [c]"
  by (auto simp: isspace_def lower_cp_def)

lemma lower_spaces: "list_all isspace a \<Longrightarrow> lower a = a"
  by (induction a) (simp_all add: lower_def lower_cp_space)

lemma strip_decompose:
  "\<exists>a b. list_all isspace a \<and> list_all isspace b \<and> t = a @ strip t @ b"
proof -
  let ?a = "takeWhile isspace t"
  let ?x = "lstrip t"
  let ?b = "rev (takeWhile isspace (rev ?x))"
  have "?x = rev (rev ?x)"
    by simp
  also have "\<dots> = rev (takeWhile isspace (rev ?x) @ dropWhile isspace (rev ?x))"
    by (simp only: takeWhile_dropWhile_id)
  also have "\<dots> = rstrip ?x @ ?b"
    by (simp only: rev_append rstrip_def)
  finally have x: "?x = rstrip ?x @ ?b" .
  have "t = ?a @ ?x" by (simp add: lstrip_def)
  with x have "t = ?a @ strip t @ ?b" by (simp add: strip_def)
  moreover have "list_all isspace ?a" "list_all isspace ?b"
    by (auto simp: list_all_iff dest: set_takeWhileD)
  ultimately show ?thesis by blast
qed

lemma occurrences_leading:
  assumes "plain_term w"
  shows "list_all isspace a \<Longrightarrow> occurrences (a @ m) w = occurrences m w"
proof (induction a)
  case Nil
  then show ?case by simp
next
  case (Cons c a)
  from assms obtain d w' where w: "w = d # w'" and d: "\<not> isspace d"
    by (cases w) (auto simp: plain_term_def)
  from Cons.prems have "isspace c" by simp
  with w d have "\<not> prefix w (c # a @ m)" by auto
  with Cons show ?case by (simp add: occurrences_Cons)
qed

lemma prefix_before_spaces:
  assumes "plain_term w" "list_all isspace b" "prefix w (m @ b)"
  shows "prefix w m"
proof (rule ccontr)
  assume np: "\<not> prefix w m"
  from assms(3) have "prefix w m \<or> (\<exists>us. us \<noteq> [] \<and> prefix us b \<and> w = m @ us)"
    by (auto simp: prefix_append)
  with np obtain us where us: "us \<noteq> []" "prefix us b" "w = m @ us" by blast
  then have "hd us \<in> set us" "set us \<subseteq> set b" "set us \<subseteq> set w"
    by (auto dest: set_mono_prefix)
  then have "hd us \<in> set b" "hd us \<in> set w"
    by auto
  with assms(1,2) show False
    by (auto simp: plain_term_def list_all_iff)
qed

lemma occurrences_trailing:
  assumes "plain_term w" "list_all isspace b"
  shows "occurrences (m @ b) w = occurrences m w"
proof (induction m)
  case Nil
  have "occurrences (b @ []) w = occurrences [] w"
    using assms by (rule occurrences_leading)
  then show ?case by simp
next
  case (Cons c m)
  have "prefix w ((c # m) @ b) \<longleftrightarrow> prefix w (c # m)"
    using prefix_before_spaces [OF assms, of "c # m"] prefix_prefix [of w "c # m" b] by auto
  with Cons show ?case by (simp add: occurrences_Cons)
qed

lemma occurrences_lower_strip:
  assumes "plain_term w"
  shows "occurrences (lower (strip t)) w = occurrences (lower t) w"
proof -
  obtain a b where ab: "list_all isspace a" "list_all isspace b" "t = a @ strip t @ b"
    using strip_decompose by blast
  have "lower t = lower (a @ strip t @ b)"
    using ab(3) by simp
  also have "\<dots> = a @ lower (strip t) @ b"
    using ab(1,2) by (simp add: lower_append lower_spaces)
  finally have "occurrences (lower t) w = occurrences (a @ lower (strip t) @ b) w"
    by simp
  also have "\<dots> = occurrences (lower (strip t) @ b) w"
    using assms ab(1) by (rule occurrences_leading)
  also have "\<dots> = occurrences (lower (strip t)) w"
    using assms ab(2) by (rule occurrences_trailing)
  finally show ?thesis by simp
qed

lemma str_count_occurrences:
  assumes "plain_term w"
  shows "str_count t w = occurrences t w"
proof -
  from assms have w: "unbordered w" "w \<noteq> []" by (simp_all add: plain_term_def)
  have "count_from w 0 t = occurrences t w"
    using w by (intro count_from_occurrences) simp_all
  with w show ?thesis by (simp add: str_count_def)
qed

lemma plain_terms: "list_all plain_term (neg_terms @ pos_terms)"
  by (simp add: neg_terms_def pos_terms_def py_def plain_term_def unbordered_def isspace_def
      upt_conv_Cons)

lemma term_count:
  assumes "w \<in> set neg_terms \<union> set pos_terms"
  shows "str_count (lower (strip t)) w = occurrences (lower t) w"
proof -
  from assms plain_terms have "plain_term w" by (auto simp: list_all_iff)
  then show ?thesis by (simp add: str_count_occurrences occurrences_lower_strip)
qed

lemma re_search_braces_greedy:
  assumes "123 \<notin> set a" and "125 \<notin> set b"
  shows "re_search_braces (a @ 123 # m @ 125 # b) = Some (123 # m @ [125])"
proof -
  have "dropWhile (\<lambda>c. c \<noteq> 123) (a @ 123 # m @ 125 # b) = 123 # m @ 125 # b"
    using assms(1) by (subst dropWhile_append2) auto
  moreover have "dropWhile (\<lambda>c. c \<noteq> 125) (rev b @ 125 # rev m) = 125 # rev m"
    using assms(2) by (subst dropWhile_append2) auto
  ultimately show ?thesis
    by (simp add: re_search_braces_def split: list.splits)
qed

subsection \<open>The offline analyzer\<close>

text \<open>
  The list \<^verbatim>\<open>re.split\<close> returns is never empty, so the summary is always the first
  piece, trimmed. A trimmed text starts with a character that is not whitespace; when
  it does not start with a boundary, its first piece starts with that character.
\<close>

lemma rstrip_decompose: "x = rstrip x @ rev (takeWhile isspace (rev x))"
proof -
  have "x = rev (rev x)"
    by simp
  also have "\<dots> = rev (takeWhile isspace (rev x) @ dropWhile isspace (rev x))"
    by (simp only: takeWhile_dropWhile_id)
  also have "\<dots> = rstrip x @ rev (takeWhile isspace (rev x))"
    by (simp only: rev_append rstrip_def)
  finally show ?thesis .
qed

lemma strip_head_not_space:
  assumes "strip t = c # cs"
  shows "\<not> isspace c"
proof -
  let ?x = "lstrip t"
  from assms have r: "rstrip ?x = c # cs"
    by (simp add: strip_def)
  have "?x = rstrip ?x @ rev (takeWhile isspace (rev ?x))"
    by (rule rstrip_decompose)
  with r have x: "?x = c # (cs @ rev (takeWhile isspace (rev ?x)))"
    by simp
  then have "dropWhile isspace t = c # (cs @ rev (takeWhile isspace (rev ?x)))"
    by (simp add: lstrip_def)
  then have "\<not> isspace (hd (dropWhile isspace t))" "hd (dropWhile isspace t) = c"
    using hd_dropWhile [of isspace t] by auto
  then show ?thesis by simp
qed

lemma strip_Cons_not_space:
  assumes "\<not> isspace c"
  shows "strip (c # xs) \<noteq> []"
proof -
  have "dropWhile isspace (rev xs @ [c]) \<noteq> []"
    using assms by (simp add: dropWhile_eq_Nil_conv)
  with assms show ?thesis
    by (simp add: strip_def lstrip_def rstrip_def)
qed

lemma re_split_from_head: "\<exists>p rest. re_split_from cur s = (cur @ p) # rest"
proof (induction cur s rule: re_split_from.induct)
  case (1 cur)
  then show ?case by simp
next
  case (2 cur c cs)
  show ?case
  proof (cases "boundary_at (c # cs)")
    case True
    then show ?thesis by simp
  next
    case False
    with 2 obtain p rest where "re_split_from (cur @ [c]) cs = ((cur @ [c]) @ p) # rest"
      by blast
    with False have "re_split_from cur (c # cs) = (cur @ (c # p)) # rest"
      by simp
    then show ?thesis by blast
  qed
qed

lemma re_split_sentences_not_Nil: "re_split_sentences s \<noteq> []"
  using re_split_from_head [of "[]" s] by (auto simp: re_split_sentences_def)

lemma local_fallback_summary:
  "fst (local_fallback t) = strip (hd (re_split_sentences (strip t)))"
  using re_split_sentences_not_Nil [of "strip t"]
  by (simp add: local_fallback_def Let_def split: list.splits)

lemma local_summary_nonempty:
  assumes "strip t \<noteq> []" "\<not> boundary_at (strip t)"
  shows "fst (local_fallback t) \<noteq> []"
proof -
  from assms(1) obtain c cs where s: "strip t = c # cs"
    by (cases "strip t") auto
  then have c: "\<not> isspace c"
    by (rule strip_head_not_space)
  obtain p rest where "re_split_from [c] cs = ([c] @ p) # rest"
    using re_split_from_head by blast
  with assms(2) s have "re_split_sentences (strip t) = (c # p) # rest"
    by (simp add: re_split_sentences_def)
  then have "fst (local_fallback t) = strip (c # p)"
    by (simp add: local_fallback_summary)
  with c show ?thesis
    by (simp add: strip_Cons_not_space)
qed

lemma local_sentiment_label:
  "snd (local_fallback t) \<in> {py ''Negative'', py ''Positive'', py ''Neutral''}"
  by (simp add: local_fallback_def Let_def)

text \<open>
  C4. For every transcript the heuristic sentiment is the one the specification
  computes: with the transcript lower-cased, \<open>neg\<close> the number of occurrences of the
  negative terms and \<open>pos\<close> that of the positive terms, it is Negative if \<open>neg > pos\<close>,
  Positive if \<open>pos > neg\<close> and Neutral if they are equal.
\<close>

theorem heuristic_sentiment_spec: "snd (local_fallback t) = spec_sentiment t"
proof -
  have n: "map (str_count (lower (strip t))) neg_terms = map (occurrences (lower t)) neg_terms"
    by (rule map_cong) (simp_all add: term_count)
  have p: "map (str_count (lower (strip t))) pos_terms = map (occurrences (lower t)) pos_terms"
    by (rule map_cong) (simp_all add: term_count)
  show ?thesis
    by (simp add: local_fallback_def spec_sentiment_def Let_def n p)
qed

text \<open>
  The example of the specification: three positive occurrences and no negative one.
\<close>

theorem heuristic_sentiment_spec_witness:
  "spec_sentiment (py ''Thank you, great service, I am happy'') = py ''Positive''"
proof -
  have "snd (local_fallback (py ''Thank you, great service, I am happy'')) = py ''Positive''"
    by (simp add: local_eval str_eval)
  with heuristic_sentiment_spec [of "py ''Thank you, great service, I am happy''"]
  show ?thesis by simp
qed

text \<open>
  C5. The specification falls back to the first twelve tokens and an ellipsis when the
  transcript has no sentence boundary. The program holds that excerpt in the \<^verbatim>\<open>else\<close>
  branch of its conditional, but the condition is the list of pieces, which is never
  empty (\<open>re_split_sentences_not_Nil\<close>): on \<^verbatim>\<open>hello world\<close> the program returns the whole
  text where the specification gives the excerpt \<^verbatim>\<open>hello world...\<close>.
\<close>

theorem summary_without_boundary:
  "fst (local_fallback (py ''hello world'')) = py ''hello world'' \<and>
   spec_summary (py ''hello world'') = py ''hello world...''"
  by (simp add: spec_summary_def split_ws.simps local_eval str_eval)

subsection \<open>The response parser\<close>

lemma try_parse_loads_fails: "json_loads raw = Inl e \<Longrightarrow> try_parse raw = Inl e"
  by (simp add: try_parse_def)

lemma try_parse_object:
  assumes "json_loads raw = Inr (JObject kvs)"
    and "string_field kvs (py ''summary'') = Some a"
    and "string_field kvs (py ''sentiment'') = Some b"
  shows "try_parse raw = Inr (strip a, strip b)"
  using assms
  by (auto simp: try_parse_def extract_fields_def get_stripped_def dict_get_def str_strip_def
      string_field_def split: option.splits json.splits)

lemma parse_response_extracted:
  "parse_response raw = (case extracted_fields raw of Some r \<Rightarrow> r | None \<Rightarrow> (strip raw, py ''Unknown''))"
  by (simp add: parse_response_def extracted_fields_def split: sum.splits option.splits)

text \<open>
  C6. The response parser is total: once the request has returned a text,
  \<^verbatim>\<open>call_groq_for_json\<close> returns a pair and raises nothing. When the text is not JSON and
  either holds no block in braces or the block is not JSON, the pair is the trimmed
  text and \<^verbatim>\<open>Unknown\<close>; so it is on \<^verbatim>\<open>I cannot help with that.\<close>
\<close>

theorem response_parser_total:
  "(create_completion env t = Generated raw \<longrightarrow>
      (\<exists>a b. call_groq_for_json env c t = Inr (a, b, raw) \<and> parse_response raw = (a, b))) \<and>
   ((\<exists>e. json_loads raw = Inl e) \<and>
    (\<forall>blk. re_search_braces raw = Some blk \<longrightarrow> (\<exists>e. json_loads blk = Inl e)) \<longrightarrow>
      parse_response raw = (strip raw, py ''Unknown'')) \<and>
   parse_response (py ''I cannot help with that.'') = (py ''I cannot help with that.'', py ''Unknown'')"
proof (intro conjI impI)
  assume "create_completion env t = Generated raw"
  then show "\<exists>a b. call_groq_for_json env c t = Inr (a, b, raw) \<and> parse_response raw = (a, b)"
    by (cases "parse_response raw") (simp add: call_groq_for_json_def)
next
  assume h: "(\<exists>e. json_loads raw = Inl e) \<and>
    (\<forall>blk. re_search_braces raw = Some blk \<longrightarrow> (\<exists>e. json_loads blk = Inl e))"
  then obtain e where e: "try_parse raw = Inl e"
    by (auto dest: try_parse_loads_fails)
  show "parse_response raw = (strip raw, py ''Unknown'')"
  proof (cases "re_search_braces raw")
    case None
    with e show ?thesis by (simp add: parse_response_def)
  next
    case (Some blk)
    with h obtain e' where "try_parse blk = Inl e'"
      by (auto dest: try_parse_loads_fails)
    with e Some show ?thesis by (simp add: parse_response_def)
  qed
next
  show "parse_response (py ''I cannot help with that.'') =
      (py ''I cannot help with that.'', py ''Unknown'')"
    by (simp add: json_eval parse_eval str_eval)
qed

text \<open>
  An instance with a block in braces that is not JSON.
\<close>

theorem response_parser_total_witness:
  "create_completion (online_env (Generated (py ''no {json} here''))) (py ''hi'')
      = Generated (py ''no {json} here'') \<and>
   json_loads (py ''no {json} here'') = Inl JSONDecodeError \<and>
   re_search_braces (py ''no {json} here'') = Some (py ''{json}'') \<and>
   json_loads (py ''{json}'') = Inl JSONDecodeError \<and>
   call_groq_for_json (online_env (Generated (py ''no {json} here''))) Groq_Client (py ''hi'')
      = Inr (py ''no {json} here'', py ''Unknown'', py ''no {json} here'')"
proof -
  let ?raw = "py ''no {json} here''"
  let ?env = "online_env (Generated ?raw)"
  have c: "create_completion ?env (py ''hi'') = Generated ?raw"
    by (simp add: online_env_def)
  have l: "json_loads ?raw = Inl JSONDecodeError"
    by (simp add: json_eval)
  have s: "re_search_braces ?raw = Some (py ''{json}'')"
    by (simp add: re_search_braces_def py_def)
  have b: "json_loads (py ''{json}'') = Inl JSONDecodeError"
    by (simp add: json_eval)
  have st: "strip ?raw = ?raw"
    by (simp add: str_eval)
  from response_parser_total [of ?env "py ''hi''" ?raw Groq_Client] c l s b st
  show ?thesis by auto
qed

text \<open>
  C7 as stated fails on an object whose field is not a string: \<^verbatim>\<open>.strip()\<close> raises on
  \<^verbatim>\<open>null\<close>, both handlers catch it, and the result is the raw text with \<^verbatim>\<open>Unknown\<close>.
\<close>

theorem strict_object_counterexample:
  "json_loads (py ''{\"summary\": \"S\", \"sentiment\": null}'') =
     Inr (JObject [(py ''summary'', JString (py ''S'')), (py ''sentiment'', JNull)]) \<and>
   parse_response (py ''{\"summary\": \"S\", \"sentiment\": null}'') =
     (py ''{\"summary\": \"S\", \"sentiment\": null}'', py ''Unknown'')"
  by (simp add: json_eval parse_eval str_eval)

text \<open>
  C7, amended. When the whole text is a JSON object whose \<^verbatim>\<open>summary\<close> and \<^verbatim>\<open>sentiment\<close>
  members, where present, are strings, the parser returns the two fields trimmed, an
  absent field as the empty string; on \<^verbatim>\<open>{"summary": "S", "sentiment": "Positive"}\<close> it
  returns \<^verbatim>\<open>S\<close> and \<^verbatim>\<open>Positive\<close>.
\<close>

theorem strict_object_fields:
  "(json_loads raw = Inr (JObject kvs) \<and> string_field kvs (py ''summary'') = Some a \<and>
    string_field kvs (py ''sentiment'') = Some b \<longrightarrow> parse_response raw = (strip a, strip b)) \<and>
   parse_response (py ''{\"summary\": \"S\", \"sentiment\": \"Positive\"}'') = (py ''S'', py ''Positive'')"
proof (intro conjI impI)
  assume "json_loads raw = Inr (JObject kvs) \<and> string_field kvs (py ''summary'') = Some a \<and>
    string_field kvs (py ''sentiment'') = Some b"
  then have "try_parse raw = Inr (strip a, strip b)"
    by (simp add: try_parse_object)
  then show "parse_response raw = (strip a, strip b)"
    by (simp add: parse_response_def)
next
  show "parse_response (py ''{\"summary\": \"S\", \"sentiment\": \"Positive\"}'') = (py ''S'', py ''Positive'')"
    by (simp add: json_eval parse_eval str_eval)
qed

text \<open>
  An instance with a summary to trim and no sentiment.
\<close>

theorem strict_object_fields_witness:
  "json_loads (py ''{\"summary\": \" S \"}'') = Inr (JObject [(py ''summary'', JString (py '' S ''))]) \<and>
   string_field [(py ''summary'', JString (py '' S ''))] (py ''summary'') = Some (py '' S '') \<and>
   string_field [(py ''summary'', JString (py '' S ''))] (py ''sentiment'') = Some [] \<and>
   parse_response (py ''{\"summary\": \" S \"}'') = (py ''S'', [])"
proof -
  let ?raw = "py ''{\"summary\": \" S \"}''"
  let ?kvs = "[(py ''summary'', JString (py '' S ''))]"
  have l: "json_loads ?raw = Inr (JObject ?kvs)"
    by (simp add: json_eval)
  have f: "string_field ?kvs (py ''summary'') = Some (py '' S '')"
    "string_field ?kvs (py ''sentiment'') = Some []"
    by (simp_all add: string_field_def py_def)
  have st: "strip (py '' S '') = py ''S''" "strip [] = []"
    by (simp_all add: str_eval)
  from strict_object_fields [of ?raw ?kvs "py '' S ''" "[]"] l f st show ?thesis
    by simp
qed

text \<open>
  C8 as stated fails when the block parses as an object with a field that is not a
  string: the result is the raw text with \<^verbatim>\<open>Unknown\<close>, not the fields of the block.
\<close>

theorem embedded_object_counterexample:
  "json_loads (py ''Result: {\"summary\": \"S\", \"sentiment\": 3}'') = Inl JSONDecodeError \<and>
   re_search_braces (py ''Result: {\"summary\": \"S\", \"sentiment\": 3}'') =
     Some (py ''{\"summary\": \"S\", \"sentiment\": 3}'') \<and>
   json_loads (py ''{\"summary\": \"S\", \"sentiment\": 3}'') =
     Inr (JObject [(py ''summary'', JString (py ''S'')), (py ''sentiment'', JNumber (py ''3''))]) \<and>
   parse_response (py ''Result: {\"summary\": \"S\", \"sentiment\": 3}'') =
     (py ''Result: {\"summary\": \"S\", \"sentiment\": 3}'', py ''Unknown'')"
  by (simp add: json_eval parse_eval str_eval)

text \<open>
  C8, amended. When the text is not JSON and the block from its first opening brace to
  its last closing brace is a JSON object whose \<^verbatim>\<open>summary\<close> and \<^verbatim>\<open>sentiment\<close> members,
  where present, are strings, the parser returns the fields of that block, trimmed, an
  absent field as the empty string; on the example of the specification it returns
  \<^verbatim>\<open>Customer had a billing issue.\<close> and \<^verbatim>\<open>Negative\<close>.
\<close>

theorem embedded_object_fields:
  "((\<exists>e. json_loads raw = Inl e) \<and> re_search_braces raw = Some blk \<and>
    json_loads blk = Inr (JObject kvs) \<and> string_field kvs (py ''summary'') = Some a \<and>
    string_field kvs (py ''sentiment'') = Some b \<longrightarrow> parse_response raw = (strip a, strip b)) \<and>
   parse_response (py ''Sure! Here is the result: {\"summary\": \"Customer had a billing issue.\", \"sentiment\": \"Negative\"} Hope this helps!'')
     = (py ''Customer had a billing issue.'', py ''Negative'')"
proof (intro conjI impI)
  assume h: "(\<exists>e. json_loads raw = Inl e) \<and> re_search_braces raw = Some blk \<and>
    json_loads blk = Inr (JObject kvs) \<and> string_field kvs (py ''summary'') = Some a \<and>
    string_field kvs (py ''sentiment'') = Some b"
  then obtain e where "try_parse raw = Inl e"
    by (auto dest: try_parse_loads_fails)
  moreover from h have "try_parse blk = Inr (strip a, strip b)"
    by (simp add: try_parse_object)
  ultimately show "parse_response raw = (strip a, strip b)"
    using h by (simp add: parse_response_def)
next
  show "parse_response (py ''Sure! Here is the result: {\"summary\": \"Customer had a billing issue.\", \"sentiment\": \"Negative\"} Hope this helps!'')
     = (py ''Customer had a billing issue.'', py ''Negative'')"
    by (simp add: json_eval parse_eval str_eval)
qed

text \<open>
  An instance with a sentiment to trim and no summary.
\<close>

theorem embedded_object_fields_witness:
  "json_loads (py ''ok {\"sentiment\": \"Neutral \"} '') = Inl JSONDecodeError \<and>
   re_search_braces (py ''ok {\"sentiment\": \"Neutral \"} '') = Some (py ''{\"sentiment\": \"Neutral \"}'') \<and>
   json_loads (py ''{\"sentiment\": \"Neutral \"}'') =
     Inr (JObject [(py ''sentiment'', JString (py ''Neutral ''))]) \<and>
   parse_response (py ''ok {\"sentiment\": \"Neutral \"} '') = ([], py ''Neutral'')"
proof -
  let ?raw = "py ''ok {\"sentiment\": \"Neutral \"} ''"
  let ?blk = "py ''{\"sentiment\": \"Neutral \"}''"
  let ?kvs = "[(py ''sentiment'', JString (py ''Neutral ''))]"
  have l: "json_loads ?raw = Inl JSONDecodeError"
    by (simp add: json_eval)
  have s: "re_search_braces ?raw = Some ?blk"
    by (simp add: re_search_braces_def py_def)
  have b: "json_loads ?blk = Inr (JObject ?kvs)"
    by (simp add: json_eval)
  have f: "string_field ?kvs (py ''summary'') = Some []"
    "string_field ?kvs (py ''sentiment'') = Some (py ''Neutral '')"
    by (simp_all add: string_field_def py_def)
  have st: "strip (py ''Neutral '') = py ''Neutral''" "strip [] = []"
    by (simp_all add: str_eval)
  from embedded_object_fields [of ?raw ?blk ?kvs "[]" "py ''Neutral ''"] l s b f st show ?thesis
    by simp
qed

text \<open>
  C10. A text that is not JSON and holds two JSON objects with other text between
  them: the block runs from the first opening brace to the last closing brace, it is
  not JSON, and the parser returns the trimmed text with \<^verbatim>\<open>Unknown\<close>, not the fields of
  the first object.
\<close>

theorem greedy_block_two_objects:
  "json_loads (py ''A {\"summary\": \"a\"} B {\"summary\": \"b\"}'') = Inl JSONDecodeError \<and>
   try_parse (py ''{\"summary\": \"a\"}'') = Inr (py ''a'', []) \<and>
   try_parse (py ''{\"summary\": \"b\"}'') = Inr (py ''b'', []) \<and>
   re_search_braces (py ''A {\"summary\": \"a\"} B {\"summary\": \"b\"}'') =
     Some (py ''{\"summary\": \"a\"} B {\"summary\": \"b\"}'') \<and>
   json_loads (py ''{\"summary\": \"a\"} B {\"summary\": \"b\"}'') = Inl JSONDecodeError \<and>
   parse_response (py ''A {\"summary\": \"a\"} B {\"summary\": \"b\"}'') =
     (py ''A {\"summary\": \"a\"} B {\"summary\": \"b\"}'', py ''Unknown'')"
  by (simp add: json_eval parse_eval str_eval)

subsection \<open>The dispatcher\<close>

lemma used_heuristic_analysis: "used (heuristic_analysis t) = LOCAL_FALLBACK"
  by (simp add: heuristic_analysis_def split: prod.splits)

lemma analyze_cases:
  assumes "analyze env t = Inr (r, ev)"
  shows "(used r = LOCAL_FALLBACK \<and> r = heuristic_analysis t) \<or>
         (used r = GROQ \<and> (\<exists>raw. create_completion env t = Generated raw \<and>
            summary r = fst (parse_response raw) \<and> sentiment r = snd (parse_response raw)))"
proof (cases "\<not> groq_available env \<or> key_missing (groq_api_key env)")
  case True
  with assms have "r = heuristic_analysis t"
    by (simp add: analyze_def)
  then show ?thesis by (simp add: used_heuristic_analysis)
next
  case online: False
  obtain copt ev0 where m: "make_groq_client env = (copt, ev0)"
    by (cases "make_groq_client env") auto
  show ?thesis
  proof (cases copt)
    case None
    with assms online m have "r = heuristic_analysis t"
      by (simp add: analyze_def)
    then show ?thesis by (simp add: used_heuristic_analysis)
  next
    case (Some c)
    show ?thesis
    proof (cases "create_completion env t")
      case Call_Raises
      then have "call_groq_for_json env c t = Inl RemoteCallFailed"
        by (simp add: call_groq_for_json_def)
      with assms online m Some have "r = heuristic_analysis t"
        by (simp add: analyze_def)
      then show ?thesis by (simp add: used_heuristic_analysis)
    next
      case (Generated raw)
      obtain a b where p: "parse_response raw = (a, b)"
        by (cases "parse_response raw") auto
      with Generated have "call_groq_for_json env c t = Inr (a, b, raw)"
        by (simp add: call_groq_for_json_def)
      with assms online m Some have "r = \<lparr>summary = a, sentiment = b, used = GROQ\<rparr>"
        by (simp add: analyze_def)
      with Generated p show ?thesis by simp
    qed
  qed
qed

lemma heuristic_analysis_fields:
  "summary (heuristic_analysis t) = fst (local_fallback t)"
  "sentiment (heuristic_analysis t) = snd (local_fallback t)"
  by (simp_all add: heuristic_analysis_def split: prod.splits)

text \<open>
  C1. The dispatcher is total: for every environment and transcript it returns a
  result and raises nothing. When the capability flag is false or the key is missing,
  the result is the heuristic one, with source \<open>LOCAL_FALLBACK\<close>, and no client is
  constructed.
\<close>

theorem dispatcher_total_offline:
  "(\<exists>r ev. analyze env t = Inr (r, ev)) \<and>
   (\<not> groq_available env \<or> key_missing (groq_api_key env) \<longrightarrow>
      (\<exists>ev. analyze env t = Inr (heuristic_analysis t, ev) \<and> Construct_Client \<notin> set ev))"
  by (auto simp: analyze_def Let_def split: prod.splits option.splits sum.splits)

text \<open>
  An instance without the capability, the key being present.
\<close>

theorem dispatcher_total_offline_witness:
  "\<not> groq_available offline_env \<and>
   (\<exists>ev. analyze offline_env (py ''Thank you'') =
      Inr (\<lparr>summary = py ''Thank you'', sentiment = py ''Positive'', used = LOCAL_FALLBACK\<rparr>, ev)
      \<and> Construct_Client \<notin> set ev)"
proof -
  have a: "\<not> groq_available offline_env"
    by (simp add: offline_env_def)
  have h: "heuristic_analysis (py ''Thank you'') =
      \<lparr>summary = py ''Thank you'', sentiment = py ''Positive'', used = LOCAL_FALLBACK\<rparr>"
    by (simp add: heuristic_analysis_def local_eval str_eval)
  from dispatcher_total_offline [of offline_env "py ''Thank you''"] a h show ?thesis
    by simp
qed

text \<open>
  C2 as stated fails on both paths: the trimmed transcript \<^verbatim>\<open>. hello\<close> is not empty,
  yet offline the first piece of the split is empty, and online the answer \<^verbatim>\<open>{}\<close> has
  no summary, which the parser reads as the empty string.
\<close>

theorem summary_empty_counterexample:
  "strip (py ''. hello'') \<noteq> [] \<and>
   analyze offline_env (py ''. hello'') =
     Inr (\<lparr>summary = [], sentiment = py ''Neutral'', used = LOCAL_FALLBACK\<rparr>, []) \<and>
   analyze (online_env (Generated (py ''{}''))) (py ''. hello'') =
     Inr (\<lparr>summary = [], sentiment = [], used = GROQ\<rparr>, [Construct_Client, Create_Completion])"
  by (simp add: dispatch_eval local_eval json_eval parse_eval str_eval)

text \<open>
  C2, amended. For every transcript that is not empty after trimming: on the heuristic
  path the summary is not empty whenever the trimmed transcript does not start with a
  sentence boundary (a terminator followed by whitespace); on the model path the
  summary is the one the parser returns for the generated text, and it is not empty
  exactly when the extracted summary field is not blank or, nothing being extracted,
  the generated text is not blank.
\<close>

theorem summary_nonempty_cases:
  assumes "strip t \<noteq> []" and "analyze env t = Inr (r, ev)"
  shows "(used r = LOCAL_FALLBACK \<longrightarrow> \<not> boundary_at (strip t) \<longrightarrow> summary r \<noteq> []) \<and>
         (used r = GROQ \<longrightarrow>
            (\<exists>raw. create_completion env t = Generated raw \<and>
               summary r = fst (parse_response raw) \<and>
               (summary r \<noteq> [] \<longleftrightarrow>
                  (case extracted_fields raw of
                     Some (a, b) \<Rightarrow> a \<noteq> []
                   | None \<Rightarrow> strip raw \<noteq> []))))"
proof (intro conjI impI)
  assume "used r = LOCAL_FALLBACK" "\<not> boundary_at (strip t)"
  with analyze_cases [OF assms(2)] have "summary r = fst (local_fallback t)"
    by (auto simp: heuristic_analysis_fields)
  with assms(1) \<open>\<not> boundary_at (strip t)\<close> show "summary r \<noteq> []"
    by (simp add: local_summary_nonempty)
next
  assume "used r = GROQ"
  with analyze_cases [OF assms(2)] obtain raw where
    raw: "create_completion env t = Generated raw" "summary r = fst (parse_response raw)"
    by auto
  have "fst (parse_response raw) \<noteq> [] \<longleftrightarrow>
        (case extracted_fields raw of Some (a, b) \<Rightarrow> a \<noteq> [] | None \<Rightarrow> strip raw \<noteq> [])"
    by (simp add: parse_response_extracted split: option.splits prod.splits)
  with raw show "\<exists>raw. create_completion env t = Generated raw \<and>
               summary r = fst (parse_response raw) \<and>
               (summary r \<noteq> [] \<longleftrightarrow>
                  (case extracted_fields raw of
                     Some (a, b) \<Rightarrow> a \<noteq> []
                   | None \<Rightarrow> strip raw \<noteq> []))"
    by auto
qed

text \<open>
  An instance of each path.
\<close>

theorem summary_nonempty_cases_witness:
  "strip (py ''Hi. Bye'') \<noteq> [] \<and> \<not> boundary_at (strip (py ''Hi. Bye'')) \<and>
   analyze offline_env (py ''Hi. Bye'') =
     Inr (\<lparr>summary = py ''Hi'', sentiment = py ''Neutral'', used = LOCAL_FALLBACK\<rparr>, []) \<and>
   py ''Hi'' \<noteq> [] \<and>
   analyze (online_env (Generated (py ''ok''))) (py ''Hi. Bye'') =
     Inr (\<lparr>summary = py ''ok'', sentiment = py ''Unknown'', used = GROQ\<rparr>,
          [Construct_Client, Create_Completion]) \<and>
   extracted_fields (py ''ok'') = None \<and> strip (py ''ok'') \<noteq> []"
proof -
  let ?t = "py ''Hi. Bye''"
  let ?r1 = "\<lparr>summary = py ''Hi'', sentiment = py ''Neutral'', used = LOCAL_FALLBACK\<rparr>"
  let ?env = "online_env (Generated (py ''ok''))"
  let ?r2 = "\<lparr>summary = py ''ok'', sentiment = py ''Unknown'', used = GROQ\<rparr>"
  have s: "strip ?t \<noteq> []" "\<not> boundary_at (strip ?t)"
    by (simp_all add: str_eval boundary_at_def is_terminator_def)
  have a1: "analyze offline_env ?t = Inr (?r1, [])"
    by (simp add: dispatch_eval local_eval str_eval)
  have a2: "analyze ?env ?t = Inr (?r2, [Construct_Client, Create_Completion])"
    by (simp add: dispatch_eval json_eval parse_eval str_eval)
  have e: "extracted_fields (py ''ok'') = None"
    by (simp add: extracted_fields_def json_eval parse_eval)
  have k: "strip (py ''ok'') \<noteq> []"
    by (simp add: str_eval)
  from summary_nonempty_cases [OF s(1) a1] summary_nonempty_cases [OF s(1) a2] s a1 a2 e k
  show ?thesis by simp
qed

text \<open>
  C3 as stated fails on the model path: the sentiment of the answer is kept as it is,
  here \<^verbatim>\<open>Mixed\<close>, which is none of the four values.
\<close>

theorem sentiment_enum_counterexample:
  "strip (py ''Hi'') \<noteq> [] \<and>
   analyze (online_env (Generated (py ''{\"summary\": \"S\", \"sentiment\": \"Mixed\"}''))) (py ''Hi'') =
     Inr (\<lparr>summary = py ''S'', sentiment = py ''Mixed'', used = GROQ\<rparr>,
          [Construct_Client, Create_Completion]) \<and>
   py ''Mixed'' \<notin> set sentiment_labels"
  by (simp add: dispatch_eval json_eval parse_eval str_eval sentiment_labels_def)

text \<open>
  C3, amended. On the heuristic path the sentiment is one of Positive, Neutral and
  Negative. On the model path it is the sentiment the parser returns for the generated
  text, kept as given: the trimmed \<^verbatim>\<open>sentiment\<close> field of the extracted object (any
  text, empty when the field is absent), and \<^verbatim>\<open>Unknown\<close> when nothing is extracted.
\<close>

theorem sentiment_cases:
  assumes "analyze env t = Inr (r, ev)"
  shows "(used r = LOCAL_FALLBACK \<longrightarrow>
            sentiment r \<in> {py ''Positive'', py ''Neutral'', py ''Negative''}) \<and>
         (used r = GROQ \<longrightarrow>
            (\<exists>raw. create_completion env t = Generated raw \<and>
               sentiment r = (case extracted_fields raw of
                                Some (a, b) \<Rightarrow> b
                              | None \<Rightarrow> py ''Unknown'')))"
proof (intro conjI impI)
  assume "used r = LOCAL_FALLBACK"
  with analyze_cases [OF assms] have "sentiment r = snd (local_fallback t)"
    by (auto simp: heuristic_analysis_fields)
  with local_sentiment_label [of t]
  show "sentiment r \<in> {py ''Positive'', py ''Neutral'', py ''Negative''}"
    by auto
next
  assume "used r = GROQ"
  with analyze_cases [OF assms] obtain raw where
    raw: "create_completion env t = Generated raw" "sentiment r = snd (parse_response raw)"
    by auto
  have "snd (parse_response raw) =
        (case extracted_fields raw of Some (a, b) \<Rightarrow> b | None \<Rightarrow> py ''Unknown'')"
    by (simp add: parse_response_extracted split: option.splits prod.splits)
  with raw show "\<exists>raw. create_completion env t = Generated raw \<and>
               sentiment r = (case extracted_fields raw of
                                Some (a, b) \<Rightarrow> b
                              | None \<Rightarrow> py ''Unknown'')"
    by auto
qed

text \<open>
  An instance of each path.
\<close>

theorem sentiment_cases_witness:
  "analyze offline_env (py ''good'') =
     Inr (\<lparr>summary = py ''good'', sentiment = py ''Positive'', used = LOCAL_FALLBACK\<rparr>, []) \<and>
   py ''Positive'' \<in> {py ''Positive'', py ''Neutral'', py ''Negative''} \<and>
   analyze (online_env (Generated (py ''{\"sentiment\": \"fine\"}''))) (py ''good'') =
     Inr (\<lparr>summary = [], sentiment = py ''fine'', used = GROQ\<rparr>,
          [Construct_Client, Create_Completion]) \<and>
   extracted_fields (py ''{\"sentiment\": \"fine\"}'') = Some ([], py ''fine'')"
proof -
  let ?t = "py ''good''"
  let ?raw = "py ''{\"sentiment\": \"fine\"}''"
  let ?r1 = "\<lparr>summary = py ''good'', sentiment = py ''Positive'', used = LOCAL_FALLBACK\<rparr>"
  let ?r2 = "\<lparr>summary = [], sentiment = py ''fine'', used = GROQ\<rparr>"
  have a1: "analyze offline_env ?t = Inr (?r1, [])"
    by (simp add: dispatch_eval local_eval str_eval)
  have a2: "analyze (online_env (Generated ?raw)) ?t = Inr (?r2, [Construct_Client, Create_Completion])"
    by (simp add: dispatch_eval json_eval parse_eval str_eval)
  have e: "extracted_fields ?raw = Some ([], py ''fine'')"
    by (simp add: extracted_fields_def json_eval parse_eval str_eval)
  from sentiment_cases [OF a1] sentiment_cases [OF a2] a1 a2 e
  show ?thesis by (simp add: online_env_def)
qed

text \<open>
  C9. The heuristic analyzer is deterministic: whatever the environments of two
  invocations on the same transcript, when both results come from the heuristic path
  they carry the same summary and the same sentiment, namely those of
  \<open>local_fallback\<close>, which reads nothing but the transcript and raises nothing.
\<close>

theorem heuristic_deterministic:
  assumes "analyze env1 t = Inr (r1, ev1)" and "analyze env2 t = Inr (r2, ev2)"
    and "used r1 = LOCAL_FALLBACK" and "used r2 = LOCAL_FALLBACK"
  shows "summary r1 = summary r2 \<and> sentiment r1 = sentiment r2 \<and>
         (summary r1, sentiment r1) = local_fallback t"
  using analyze_cases [OF assms(1)] analyze_cases [OF assms(2)] assms(3,4)
  by (auto simp: heuristic_analysis_fields)

text \<open>
  Two invocations: one without the capability, one whose request fails.
\<close>

theorem heuristic_deterministic_witness:
  "analyze offline_env (py ''not good'') =
     Inr (\<lparr>summary = py ''not good'', sentiment = py ''Neutral'', used = LOCAL_FALLBACK\<rparr>, []) \<and>
   analyze (online_env Call_Raises) (py ''not good'') =
     Inr (\<lparr>summary = py ''not good'', sentiment = py ''Neutral'', used = LOCAL_FALLBACK\<rparr>,
          [Construct_Client, Create_Completion, Warning_Call_Error]) \<and>
   local_fallback (py ''not good'') = (py ''not good'', py ''Neutral'')"
proof -
  let ?t = "py ''not good''"
  let ?r = "\<lparr>summary = py ''not good'', sentiment = py ''Neutral'', used = LOCAL_FALLBACK\<rparr>"
  have a1: "analyze offline_env ?t = Inr (?r, [])"
    by (simp add: dispatch_eval local_eval str_eval)
  have a2: "analyze (online_env Call_Raises) ?t =
      Inr (?r, [Construct_Client, Create_Completion, Warning_Call_Error])"
    by (simp add: dispatch_eval local_eval str_eval)
  from heuristic_deterministic [OF a1 a2] a1 a2 show ?thesis
    by simp
qed

end
